theory Spec2Isabelle
  imports Main "HOL-Library.Word" "HOL-Library.Sublist"
begin

section \<open>Proof-data extraction for the Soroban verifier: the model\<close>

text \<open>
  The program is \<^verbatim>\<open>scripts/extract_proof_data.py\<close>: it checks that three input files
  exist, reads two of them as bytes and prints them in hexadecimal, parses the third as JSON,
  and writes a JSON document and a shell file.

  Conventions of the embedding.
  \<^item> A byte is an \<open>8 word\<close>; the content of a file is a list of bytes.
  \<^item> A Python \<open>str\<close> that the program builds from ASCII text (hex digits, decimal numbers,
    paths, the lines it prints and writes) is a \<open>string\<close>. The text decoded from
    \<^verbatim>\<open>vk.json\<close> can hold any Unicode code point and is a list of code points (\<open>nat\<close>).
  \<^item> The file system is a map from paths to file contents: a path is absent or a readable
    regular file, and a write succeeds. Directories, permissions and links are not modelled.
  \<^item> An exception is a value of \<open>py_error\<close>; a function that can raise returns a sum.
  \<^item> Two limits of the interpreter that \<^verbatim>\<open>json.load\<close> can reach are part of the model: an
    integer literal of more than 4300 digits raises \<^verbatim>\<open>ValueError\<close>, and arrays and objects
    nested beyond the recursion limit raise \<^verbatim>\<open>RecursionError\<close>. Memory is not modelled: a
    file of any length can be read.
\<close>

type_synonym byte = "8 word"
type_synonym path = string
type_synonym ustr = "nat list"
type_synonym fs = "path \<rightharpoonup> byte list"

datatype py_error =
    FileNotFoundError
  | UnicodeDecodeError
  | JSONDecodeError
  | ValueError
  | RecursionError
  | SystemExit nat

text \<open>
  What a run depends on besides the program and the files: the conversion of a number token
  with a fraction or an exponent to a float and back to text (see \<open>JFloat\<close> below), and the
  number of arrays and objects, one inside the other, that the scanner of \<^verbatim>\<open>json\<close> can enter
  before the recursion limit of the interpreter is reached. The latter is
  \<^verbatim>\<open>sys.getrecursionlimit()\<close> less the frames in use when the scanner is called; for the
  script run on its own with the default limit of 1000 it is 992.
\<close>

record interp =
  py_float_repr :: "string \<Rightarrow> string"
  py_max_depth :: nat

subsection \<open>\<^verbatim>\<open>bytes.hex()\<close> and \<^verbatim>\<open>read_binary_file\<close>\<close>

text \<open>
  \<^verbatim>\<open>bytes.hex()\<close> prints every byte as two digits of \<^verbatim>\<open>0123456789abcdef\<close>, the high
  nibble first, with no separator.
\<close>

definition hexdigit :: "nat \<Rightarrow> char" where
  "hexdigit n = ''0123456789abcdef'' ! n"

definition hex_byte :: "byte \<Rightarrow> string" where
  "hex_byte b = [hexdigit (unat b div 16), hexdigit (unat b mod 16)]"

definition bytes_hex :: "byte list \<Rightarrow> string" where
  "bytes_hex bs = concat (map hex_byte bs)"

text \<open>
  \<^verbatim>\<open>with open(filepath, 'rb') as f: return f.read().hex()\<close>
\<close>

definition read_binary_file :: "fs \<Rightarrow> path \<Rightarrow> py_error + string" where
  "read_binary_file files filepath =
     (case files filepath of
        None \<Rightarrow> Inl FileNotFoundError
      | Some content \<Rightarrow> Inr (bytes_hex content))"

text \<open>
  The decoder the round-trip property speaks of: two hexadecimal digits (of either case) give
  one byte; a string of odd length or with another character has no decoding.
\<close>

definition unhexdigit :: "char \<Rightarrow> nat option" where
  "unhexdigit c =
     (let n = (of_char c :: nat) in
      if 48 \<le> n \<and> n \<le> 57 then Some (n - 48)
      else if 97 \<le> n \<and> n \<le> 102 then Some (n - 87)
      else if 65 \<le> n \<and> n \<le> 70 then Some (n - 55)
      else None)"

fun bytes_fromhex :: "string \<Rightarrow> byte list option" where
  "bytes_fromhex [] = Some []"
| "bytes_fromhex [c] = None"
| "bytes_fromhex (c # d # s) =
     (case (unhexdigit c, unhexdigit d, bytes_fromhex s) of
        (Some h, Some l, Some bs) \<Rightarrow> Some (of_nat (16 * h + l) # bs)
      | _ \<Rightarrow> None)"

subsection \<open>\<^verbatim>\<open>str(int)\<close> and \<^verbatim>\<open>int(str)\<close>\<close>

text \<open>
  The decimal text of an integer, as an f-string and \<^verbatim>\<open>int.__repr__\<close> print it.
\<close>

definition digit_char :: "nat \<Rightarrow> char" where
  "digit_char d = ''0123456789'' ! d"

function str_nat :: "nat \<Rightarrow> string" where
  "str_nat n = (if n < 10 then [digit_char n] else str_nat (n div 10) @ [digit_char (n mod 10)])"
  by pat_completeness auto
termination
  by (relation "measure id") auto

declare str_nat.simps [simp del]

definition str_int :: "int \<Rightarrow> string" where
  "str_int i = (if i < 0 then CHR ''-'' # str_nat (nat (- i)) else str_nat (nat i))"

subsection \<open>\<^verbatim>\<open>os.path\<close> on POSIX\<close>

text \<open>
  \<^verbatim>\<open>posixpath.dirname\<close>: everything up to and including the last \<^verbatim>\<open>/\<close>; trailing slashes
  are stripped from it unless it consists of slashes only.
\<close>

definition rstrip_sep :: "path \<Rightarrow> path" where
  "rstrip_sep p = rev (dropWhile (\<lambda>c. c = CHR ''/'') (rev p))"

definition dirname :: "path \<Rightarrow> path" where
  "dirname p =
     (let head = rev (dropWhile (\<lambda>c. c \<noteq> CHR ''/'') (rev p)) in
      if head \<noteq> [] \<and> head \<noteq> replicate (length head) CHR ''/'' then rstrip_sep head else head)"

text \<open>
  \<^verbatim>\<open>posixpath.join(a, *p)\<close>: an absolute component discards what came before it, otherwise
  the component is appended, after a \<^verbatim>\<open>/\<close> unless the path is empty or ends with one.
\<close>

definition join_step :: "path \<Rightarrow> path \<Rightarrow> path" where
  "join_step path b =
     (if b \<noteq> [] \<and> hd b = CHR ''/'' then b
      else if path = [] \<or> last path = CHR ''/'' then path @ b
      else path @ ''/'' @ b)"

definition join :: "path \<Rightarrow> path list \<Rightarrow> path" where
  "join a p = foldl join_step a p"

subsection \<open>Text files\<close>

text \<open>
  \<^verbatim>\<open>open(filepath, 'r')\<close> decodes the bytes of the file with the encoding of the locale, taken
  to be UTF-8, in strict mode: a malformed sequence, an overlong form, an encoded surrogate or
  a value above \<^verbatim>\<open>0x10FFFF\<close> raises \<^verbatim>\<open>UnicodeDecodeError\<close>.
\<close>

definition is_cont :: "byte \<Rightarrow> bool" where
  "is_cont b = (0x80 \<le> unat b \<and> unat b \<le> 0xBF)"

fun utf8_decode :: "byte list \<Rightarrow> ustr option" where
  "utf8_decode [] = Some []"
| "utf8_decode (b # bs) =
     (let n = unat b in
      if n < 0x80 then map_option ((#) n) (utf8_decode bs)
      else if 0xC2 \<le> n \<and> n \<le> 0xDF then
        (case bs of
           b1 # r \<Rightarrow>
             if is_cont b1
             then map_option ((#) ((n - 0xC0) * 64 + (unat b1 - 0x80))) (utf8_decode r)
             else None
         | _ \<Rightarrow> None)
      else if 0xE0 \<le> n \<and> n \<le> 0xEF then
        (case bs of
           b1 # b2 # r \<Rightarrow>
             (let cp = (n - 0xE0) * 4096 + (unat b1 - 0x80) * 64 + (unat b2 - 0x80) in
              if is_cont b1 \<and> is_cont b2 \<and> 0x800 \<le> cp \<and> \<not> (0xD800 \<le> cp \<and> cp \<le> 0xDFFF)
              then map_option ((#) cp) (utf8_decode r)
              else None)
         | _ \<Rightarrow> None)
      else if 0xF0 \<le> n \<and> n \<le> 0xF4 then
        (case bs of
           b1 # b2 # b3 # r \<Rightarrow>
             (let cp = (n - 0xF0) * 262144 + (unat b1 - 0x80) * 4096
                       + (unat b2 - 0x80) * 64 + (unat b3 - 0x80) in
              if is_cont b1 \<and> is_cont b2 \<and> is_cont b3 \<and> 0x10000 \<le> cp \<and> cp \<le> 0x10FFFF
              then map_option ((#) cp) (utf8_decode r)
              else None)
         | _ \<Rightarrow> None)
      else None)"

text \<open>
  In text mode the reader then translates \<^verbatim>\<open>\r\n\<close> and a lone \<^verbatim>\<open>\r\<close> to \<^verbatim>\<open>\n\<close>
  (universal newlines).
\<close>

fun universal_newlines :: "ustr \<Rightarrow> ustr" where
  "universal_newlines [] = []"
| "universal_newlines [c] = (if c = 0x0D then [0x0A] else [c])"
| "universal_newlines (c # d # s) =
     (if c = 0x0D \<and> d = 0x0A then 0x0A # universal_newlines s
      else if c = 0x0D then 0x0A # universal_newlines (d # s)
      else c # universal_newlines (d # s))"

text \<open>
  \<^verbatim>\<open>open(path, 'w')\<close> followed by \<^verbatim>\<open>write\<close> calls replaces the content of the file by the
  encoded text. All text the program writes is ASCII, one byte for each character, and on
  POSIX \<^verbatim>\<open>\n\<close> is written as it is.
\<close>

definition encode_text :: "string \<Rightarrow> byte list" where
  "encode_text s = map of_char s"

definition write_text :: "fs \<Rightarrow> path \<Rightarrow> string \<Rightarrow> fs" where
  "write_text files filepath text = files(filepath \<mapsto> encode_text text)"

subsection \<open>JSON values\<close>

text \<open>
  What \<^verbatim>\<open>json.load\<close> returns: \<^verbatim>\<open>None\<close>, a \<^verbatim>\<open>bool\<close>, an \<^verbatim>\<open>int\<close>, a \<^verbatim>\<open>float\<close>, a
  \<^verbatim>\<open>str\<close>, a \<^verbatim>\<open>list\<close> or a \<^verbatim>\<open>dict\<close> with \<^verbatim>\<open>str\<close> keys. A \<^verbatim>\<open>dict\<close> is the list of its
  items in insertion order.

  Floating point is not part of this development. The program never computes with a float:
  \<^verbatim>\<open>json\<close> makes one from a number token with a fraction or an exponent, and prints it
  back. A float is therefore represented by the text \<^verbatim>\<open>json\<close> prints for it, and the map
  from a number token to that text, \<^verbatim>\<open>floatstr(float(token))\<close>, is a parameter
  \<open>float_repr\<close> of the decoder.
\<close>

datatype json =
    JNull
  | JBool bool
  | JInt int
  | JFloat string
  | JStr ustr
  | JArr "json list"
  | JObj "(ustr \<times> json) list"

text \<open>\<^verbatim>\<open>d[key] = value\<close>, and \<^verbatim>\<open>dict(pairs)\<close>: a repeated key keeps its place and takes the
  last value.\<close>

fun dict_setitem :: "(ustr \<times> json) list \<Rightarrow> ustr \<Rightarrow> json \<Rightarrow> (ustr \<times> json) list" where
  "dict_setitem [] k v = [(k, v)]"
| "dict_setitem ((k', v') # d) k v =
     (if k' = k then (k, v) # d else (k', v') # dict_setitem d k v)"

definition dict :: "(ustr \<times> json) list \<Rightarrow> (ustr \<times> json) list" where
  "dict pairs = foldl (\<lambda>d (k, v). dict_setitem d k v) [] pairs"

text \<open>A string literal of the program as a \<^verbatim>\<open>str\<close> of code points.\<close>

definition ustr :: "string \<Rightarrow> ustr" where
  "ustr s = map of_char s"

subsection \<open>\<^verbatim>\<open>json.load\<close>\<close>

text \<open>
  The decoder of CPython's \<^verbatim>\<open>json\<close> package with its default settings
  (\<^verbatim>\<open>strict=True\<close>, no hooks), following \<^verbatim>\<open>json/decoder.py\<close> and
  \<^verbatim>\<open>json/scanner.py\<close>. Where Python keeps an index \<^verbatim>\<open>end\<close> into the text, a function here
  returns the text that remains. Every failure of the decoder is a \<^verbatim>\<open>JSONDecodeError\<close>,
  here \<open>None\<close>; its message and position are not modelled.
\<close>

definition is_ws :: "nat \<Rightarrow> bool" where
  "is_ws c = (c = 0x20 \<or> c = 0x09 \<or> c = 0x0A \<or> c = 0x0D)"

definition skip_ws :: "ustr \<Rightarrow> ustr" where
  "skip_ws s = dropWhile is_ws s"

definition is_digit :: "nat \<Rightarrow> bool" where
  "is_digit c = (0x30 \<le> c \<and> c \<le> 0x39)"

definition hexval :: "nat \<Rightarrow> nat option" where
  "hexval c =
     (if 0x30 \<le> c \<and> c \<le> 0x39 then Some (c - 0x30)
      else if 0x61 \<le> c \<and> c \<le> 0x66 then Some (c - 0x57)
      else if 0x41 \<le> c \<and> c \<le> 0x46 then Some (c - 0x37)
      else None)"

text \<open>The four hexadecimal digits after \<^verbatim>\<open>\u\<close>.\<close>

definition decode_uXXXX :: "ustr \<Rightarrow> nat option" where
  "decode_uXXXX s =
     (case s of
        a # b # c # d # _ \<Rightarrow>
          (case (hexval a, hexval b, hexval c, hexval d) of
             (Some x, Some y, Some z, Some w) \<Rightarrow> Some (((x * 16 + y) * 16 + z) * 16 + w)
           | _ \<Rightarrow> None)
      | _ \<Rightarrow> None)"

text \<open>The table \<^verbatim>\<open>BACKSLASH\<close>.\<close>

definition backslash :: "nat \<Rightarrow> nat option" where
  "backslash esc =
     (if esc = 0x22 then Some 0x22
      else if esc = 0x5C then Some 0x5C
      else if esc = 0x2F then Some 0x2F
      else if esc = 0x62 then Some 0x08
      else if esc = 0x66 then Some 0x0C
      else if esc = 0x6E then Some 0x0A
      else if esc = 0x72 then Some 0x0D
      else if esc = 0x74 then Some 0x09
      else None)"

definition cons_chr :: "nat \<Rightarrow> (ustr \<times> ustr) option \<Rightarrow> (ustr \<times> ustr) option" where
  "cons_chr ch res = map_option (\<lambda>(content, rest). (ch # content, rest)) res"

text \<open>
  \<^verbatim>\<open>scanstring(s, end)\<close>, called just after the opening quote: the decoded string and the
  text after the closing quote. \<^verbatim>\<open>0x22\<close> is the quote, \<^verbatim>\<open>0x5C\<close> the backslash,
  \<^verbatim>\<open>0x75\<close> the letter u. A high surrogate escape followed by a low surrogate escape is one
  code point, \<^verbatim>\<open>0x10000 + (((uni - 0xd800) << 10) | (uni2 - 0xdc00))\<close>, written with
  \<open>*\<close> and \<open>+\<close> here, the low ten bits of the shifted value being zero.
\<close>

function scanstring :: "ustr \<Rightarrow> (ustr \<times> ustr) option" where
  "scanstring [] = None"
| "scanstring (c # s) =
     (if c = 0x22 then Some ([], s)
      else if c = 0x5C then
        (case s of
           [] \<Rightarrow> None
         | esc # s1 \<Rightarrow>
             if esc = 0x75 then
               (case decode_uXXXX s1 of
                  None \<Rightarrow> None
                | Some uni \<Rightarrow>
                    if 0xD800 \<le> uni \<and> uni \<le> 0xDBFF \<and> take 2 (drop 4 s1) = [0x5C, 0x75] then
                      (case decode_uXXXX (drop 6 s1) of
                         None \<Rightarrow> None
                       | Some uni2 \<Rightarrow>
                           if 0xDC00 \<le> uni2 \<and> uni2 \<le> 0xDFFF
                           then cons_chr (0x10000 + ((uni - 0xD800) * 1024 + (uni2 - 0xDC00)))
                                  (scanstring (drop 10 s1))
                           else cons_chr uni (scanstring (drop 4 s1)))
                    else cons_chr uni (scanstring (drop 4 s1)))
             else
               (case backslash esc of
                  None \<Rightarrow> None
                | Some ch \<Rightarrow> cons_chr ch (scanstring s1)))
      else if c < 0x20 then None
      else cons_chr c (scanstring s))"
  by pat_completeness auto
termination
  by (relation "measure length") auto

text \<open>
  The number pattern \<^verbatim>\<open>(-?(?:0|[1-9]\d*))(\.\d+)?([eE][-+]?\d+)?\<close> with ASCII digits, as
  the C scanner matches it: the integer part, the fraction and the exponent (each empty if
  absent), and the text after the match.
\<close>

definition match_int :: "ustr \<Rightarrow> (ustr \<times> ustr) option" where
  "match_int s =
     (let (sign, s1) = (case s of c # r \<Rightarrow> if c = 0x2D then ([c], r) else ([], s) | [] \<Rightarrow> ([], s)) in
      case s1 of
        [] \<Rightarrow> None
      | d # r \<Rightarrow>
          if d = 0x30 then Some (sign @ [d], r)
          else if 0x31 \<le> d \<and> d \<le> 0x39
          then Some (sign @ d # takeWhile is_digit r, dropWhile is_digit r)
          else None)"

definition match_frac :: "ustr \<Rightarrow> ustr \<times> ustr" where
  "match_frac s =
     (case s of
        c # d # r \<Rightarrow>
          if c = 0x2E \<and> is_digit d then (c # d # takeWhile is_digit r, dropWhile is_digit r)
          else ([], s)
      | _ \<Rightarrow> ([], s))"

definition match_exp :: "ustr \<Rightarrow> ustr \<times> ustr" where
  "match_exp s =
     (case s of
        c # r \<Rightarrow>
          if c = 0x65 \<or> c = 0x45 then
            (let (sign, r1) =
                   (case r of d # r' \<Rightarrow> if d = 0x2B \<or> d = 0x2D then ([d], r') else ([], r)
                    | [] \<Rightarrow> ([], r)) in
             case r1 of
               d # r2 \<Rightarrow>
                 if is_digit d then (c # sign @ d # takeWhile is_digit r2, dropWhile is_digit r2)
                 else ([], s)
             | [] \<Rightarrow> ([], s))
          else ([], s)
      | [] \<Rightarrow> ([], s))"

definition match_number :: "ustr \<Rightarrow> (ustr \<times> ustr \<times> ustr \<times> ustr) option" where
  "match_number s =
     (case match_int s of
        None \<Rightarrow> None
      | Some (integer, r1) \<Rightarrow>
          (let (frac, r2) = match_frac r1; (exp, r3) = match_exp r2
           in Some (integer, frac, exp, r3)))"

text \<open>
  \<^verbatim>\<open>int(integer)\<close> for a match of the integer part. The conversion of a decimal text
  with more digits than \<^verbatim>\<open>sys.int_info.default_max_str_digits\<close>, the sign not counted,
  raises \<^verbatim>\<open>ValueError\<close>.
\<close>

definition int_max_str_digits :: nat where
  "int_max_str_digits = 4300"

definition digits_val :: "ustr \<Rightarrow> nat" where
  "digits_val ds = foldl (\<lambda>a d. 10 * a + (d - 0x30)) 0 ds"

definition parse_int :: "ustr \<Rightarrow> py_error + int" where
  "parse_int s =
     (case s of
        c # r \<Rightarrow>
          if c = 0x2D
          then (if int_max_str_digits < length r then Inl ValueError
                else Inr (- int (digits_val r)))
          else (if int_max_str_digits < length s then Inl ValueError
                else Inr (int (digits_val s)))
      | [] \<Rightarrow> Inl ValueError)"

text \<open>The characters of a number token are ASCII.\<close>

definition ascii_str :: "ustr \<Rightarrow> string" where
  "ascii_str s = map char_of s"

lemma length_skip_ws: "length (skip_ws s) \<le> length s"
  unfolding skip_ws_def by (rule length_dropWhile_le)

lemma scanstring_shorter: "scanstring s = Some (x, r) \<Longrightarrow> length r < length s"
proof (induction s arbitrary: x r rule: scanstring.induct)
  case 1
  then show ?case by simp
next
  case (2 c s)
  show ?case
  proof (cases "c = 0x22")
    case True
    with "2.prems" show ?thesis by simp
  next
    case False
    with "2.prems" "2.IH" show ?thesis
      by (fastforce simp: cons_chr_def split: if_splits list.splits option.splits)
  qed
qed

text \<open>
  \<^verbatim>\<open>scan_once\<close> with the loops of \<^verbatim>\<open>JSONArray\<close> and \<^verbatim>\<open>JSONObject\<close>, as the C
  scanner runs them. \<open>array_items\<close> is the loop of \<^verbatim>\<open>JSONArray\<close>, entered at the first
  character of a value; \<open>object_items\<close> is the loop of \<^verbatim>\<open>JSONObject\<close>, entered just after
  the opening quote of a key. Where Python raises \<^verbatim>\<open>StopIteration\<close> or
  \<^verbatim>\<open>JSONDecodeError\<close> the result is \<open>Inl JSONDecodeError\<close>.

  \<open>depth\<close> is the number of arrays and objects that can still be entered: the scanner
  enters a recursive call at every \<^verbatim>\<open>[\<close> and \<^verbatim>\<open>{\<close>, before it looks at what follows,
  and raises \<^verbatim>\<open>RecursionError\<close> when none is left.

  The test \<open>length r < length s\<close> on what \<open>scan_once\<close> leaves makes the recursion
  well-founded; \<open>scan_once_shorter\<close> below shows that it never fails.
\<close>

function scan_once :: "(string \<Rightarrow> string) \<Rightarrow> nat \<Rightarrow> ustr \<Rightarrow> py_error + json \<times> ustr"
  and array_items :: "(string \<Rightarrow> string) \<Rightarrow> nat \<Rightarrow> ustr \<Rightarrow> py_error + json list \<times> ustr"
  and object_items ::
    "(string \<Rightarrow> string) \<Rightarrow> nat \<Rightarrow> ustr \<Rightarrow> py_error + (ustr \<times> json) list \<times> ustr"
where
  "scan_once float_repr depth [] = Inl JSONDecodeError"
| "scan_once float_repr depth (c # s) =
     (if c = 0x22 then
        (case scanstring s of
           None \<Rightarrow> Inl JSONDecodeError
         | Some (x, r) \<Rightarrow> Inr (JStr x, r))
      else if c = 0x7B then
        (if depth = 0 then Inl RecursionError
         else
           (case skip_ws s of
              [] \<Rightarrow> Inl JSONDecodeError
            | d # s1 \<Rightarrow>
                if d = 0x7D then Inr (JObj [], s1)
                else if d = 0x22
                then map_sum id (\<lambda>(pairs, r). (JObj (dict pairs), r))
                       (object_items float_repr (depth - 1) s1)
                else Inl JSONDecodeError))
      else if c = 0x5B then
        (if depth = 0 then Inl RecursionError
         else
           (case skip_ws s of
              [] \<Rightarrow> Inl JSONDecodeError
            | d # s1 \<Rightarrow>
                if d = 0x5D then Inr (JArr [], s1)
                else map_sum id (\<lambda>(values, r). (JArr values, r))
                       (array_items float_repr (depth - 1) (d # s1))))
      else if c = 0x6E \<and> take 4 (c # s) = ustr ''null'' then Inr (JNull, drop 3 s)
      else if c = 0x74 \<and> take 4 (c # s) = ustr ''true'' then Inr (JBool True, drop 3 s)
      else if c = 0x66 \<and> take 5 (c # s) = ustr ''false'' then Inr (JBool False, drop 4 s)
      else
        (case match_number (c # s) of
           Some (integer, frac, exp, r) \<Rightarrow>
             if frac \<noteq> [] \<or> exp \<noteq> []
             then Inr (JFloat (float_repr (ascii_str (integer @ frac @ exp))), r)
             else map_sum id (\<lambda>i. (JInt i, r)) (parse_int integer)
         | None \<Rightarrow>
             if c = 0x4E \<and> take 3 (c # s) = ustr ''NaN'' then Inr (JFloat ''NaN'', drop 2 s)
             else if c = 0x49 \<and> take 8 (c # s) = ustr ''Infinity''
             then Inr (JFloat ''Infinity'', drop 7 s)
             else if c = 0x2D \<and> take 9 (c # s) = ustr ''-Infinity''
             then Inr (JFloat ''-Infinity'', drop 8 s)
             else Inl JSONDecodeError))"
| "array_items float_repr depth s =
     (case scan_once float_repr depth s of
        Inl e \<Rightarrow> Inl e
      | Inr (v, r) \<Rightarrow>
          if length r < length s then
            (case skip_ws r of
               [] \<Rightarrow> Inl JSONDecodeError
             | d # r1 \<Rightarrow>
                 if d = 0x5D then Inr ([v], r1)
                 else if d = 0x2C
                 then map_sum id (\<lambda>(values, r2). (v # values, r2))
                        (array_items float_repr depth (skip_ws r1))
                 else Inl JSONDecodeError)
          else Inl JSONDecodeError)"
| "object_items float_repr depth s =
     (case scanstring s of
        None \<Rightarrow> Inl JSONDecodeError
      | Some (key, r0) \<Rightarrow>
          (case skip_ws r0 of
             [] \<Rightarrow> Inl JSONDecodeError
           | c # r1 \<Rightarrow>
               if c \<noteq> 0x3A then Inl JSONDecodeError
               else
                 (case scan_once float_repr depth (skip_ws r1) of
                    Inl e \<Rightarrow> Inl e
                  | Inr (v, r2) \<Rightarrow>
                      if length r2 < length (skip_ws r1) then
                        (case skip_ws r2 of
                           [] \<Rightarrow> Inl JSONDecodeError
                         | d # r3 \<Rightarrow>
                             if d = 0x7D then Inr ([(key, v)], r3)
                             else if d = 0x2C then
                               (case skip_ws r3 of
                                  [] \<Rightarrow> Inl JSONDecodeError
                                | q # r4 \<Rightarrow>
                                    if q = 0x22
                                    then map_sum id (\<lambda>(pairs, r5). ((key, v) # pairs, r5))
                                           (object_items float_repr depth r4)
                                    else Inl JSONDecodeError)
                             else Inl JSONDecodeError)
                      else Inl JSONDecodeError)))"
  by pat_completeness auto

lemma skip_ws_shorter: "skip_ws s = d # r \<Longrightarrow> length r < length s"
  using length_skip_ws [of s] by simp

termination scan_once
proof (relation "measure (\<lambda>x. case x of
            Inl (_, _, s) \<Rightarrow> 2 * length s
          | Inr (Inl (_, _, s)) \<Rightarrow> 2 * length s + 1
          | Inr (Inr (_, _, s)) \<Rightarrow> 2 * length s + 1)", goal_cases)
  case 1
  show ?case by simp
next
  case (2 float_repr depth c s d s1)
  then show ?case using skip_ws_shorter [of s d s1] by simp
next
  case (3 float_repr depth c s d s1)
  then show ?case using skip_ws_shorter [of s d s1] by simp
next
  case (4 float_repr depth s)
  show ?case by simp
next
  case (5 float_repr depth s x2 v r d r1)
  then show ?case
    using skip_ws_shorter [of r d r1] length_skip_ws [of r1] by simp
next
  case (6 float_repr depth s x2 key r0 c r1)
  then show ?case
    using scanstring_shorter [of s key r0] skip_ws_shorter [of r0 c r1] length_skip_ws [of r1]
    by simp
next
  case (7 float_repr depth s x2 key r0 c r1 x2a v r2 d r3 q r4)
  then show ?case
    using scanstring_shorter [of s key r0] skip_ws_shorter [of r0 c r1] length_skip_ws [of r1]
      skip_ws_shorter [of r2 d r3] skip_ws_shorter [of r3 q r4]
    by simp
qed

text \<open>
  \<^verbatim>\<open>json.loads(s)\<close>: a leading byte order mark is refused; white space may surround the
  value; anything else after it is \<^verbatim>\<open>Extra data\<close>.
\<close>

definition json_loads :: "(string \<Rightarrow> string) \<Rightarrow> nat \<Rightarrow> ustr \<Rightarrow> py_error + json" where
  "json_loads float_repr depth s =
     (if s \<noteq> [] \<and> hd s = 0xFEFF then Inl JSONDecodeError
      else
        (case scan_once float_repr depth (skip_ws s) of
           Inl e \<Rightarrow> Inl e
         | Inr (obj, r) \<Rightarrow> if skip_ws r = [] then Inr obj else Inl JSONDecodeError))"

text \<open>
  \<^verbatim>\<open>with open(filepath, 'r') as f: return json.load(f)\<close>. \<open>file_text\<close> is what
  \<^verbatim>\<open>f.read()\<close> returns for a file opened in text mode.
\<close>

definition file_text :: "byte list \<Rightarrow> ustr option" where
  "file_text content = map_option universal_newlines (utf8_decode content)"

definition read_json_file :: "interp \<Rightarrow> fs \<Rightarrow> path \<Rightarrow> py_error + json" where
  "read_json_file py files filepath =
     (case files filepath of
        None \<Rightarrow> Inl FileNotFoundError
      | Some content \<Rightarrow>
          (case file_text content of
             None \<Rightarrow> Inl UnicodeDecodeError
           | Some text \<Rightarrow> json_loads (py_float_repr py) (py_max_depth py) text))"

text \<open>
  The exceptions that leave the scanner: \<^verbatim>\<open>JSONDecodeError\<close>, \<^verbatim>\<open>ValueError\<close> from the
  conversion of an integer, and \<^verbatim>\<open>RecursionError\<close>.
\<close>

definition scan_error :: "py_error \<Rightarrow> bool" where
  "scan_error e = (e = JSONDecodeError \<or> e = ValueError \<or> e = RecursionError)"

definition fails_ok :: "py_error + 'a \<Rightarrow> bool" where
  "fails_ok x = (case x of Inl e \<Rightarrow> scan_error e | Inr _ \<Rightarrow> True)"

subsection \<open>\<^verbatim>\<open>json.dump(obj, f, indent=2)\<close>\<close>

text \<open>
  The encoder of \<^verbatim>\<open>json/encoder.py\<close> with \<^verbatim>\<open>ensure_ascii=True\<close>, \<^verbatim>\<open>indent=2\<close> and, as
  for every indent, the separators \<^verbatim>\<open>,\<close> and \<^verbatim>\<open>: \<close>.

  \<^verbatim>\<open>'{0:04x}'.format(n)\<close> for \<open>n < 0x10000\<close>:
\<close>

definition hex4 :: "nat \<Rightarrow> string" where
  "hex4 n =
     [hexdigit (n div 4096 mod 16), hexdigit (n div 256 mod 16),
      hexdigit (n div 16 mod 16), hexdigit (n mod 16)]"

text \<open>
  What \<^verbatim>\<open>encode_basestring_ascii\<close> prints for one character: the short escapes of
  \<^verbatim>\<open>ESCAPE_DCT\<close>, a printable ASCII character as it is, any other character as
  \<^verbatim>\<open>\uXXXX\<close>, above \<^verbatim>\<open>0xFFFF\<close> as a surrogate pair
  (\<^verbatim>\<open>0xd800 | ((n >> 10) & 0x3ff)\<close> and \<^verbatim>\<open>0xdc00 | (n & 0x3ff)\<close>, written with \<open>div\<close>,
  \<open>mod\<close> and \<open>+\<close>).
\<close>

definition escape_ascii :: "nat \<Rightarrow> string" where
  "escape_ascii c =
     (if c = 0x5C then [CHR 0x5C, CHR 0x5C]
      else if c = 0x22 then [CHR 0x5C, CHR 0x22]
      else if c = 0x08 then [CHR 0x5C, CHR ''b'']
      else if c = 0x0C then [CHR 0x5C, CHR ''f'']
      else if c = 0x0A then [CHR 0x5C, CHR ''n'']
      else if c = 0x0D then [CHR 0x5C, CHR ''r'']
      else if c = 0x09 then [CHR 0x5C, CHR ''t'']
      else if 0x20 \<le> c \<and> c \<le> 0x7E then [char_of c]
      else if c < 0x10000 then [CHR 0x5C, CHR ''u''] @ hex4 c
      else
        (let n = c - 0x10000;
             s1 = 0xD800 + n div 1024 mod 1024;
             s2 = 0xDC00 + n mod 1024
         in [CHR 0x5C, CHR ''u''] @ hex4 s1 @ [CHR 0x5C, CHR ''u''] @ hex4 s2))"

definition encode_basestring_ascii :: "ustr \<Rightarrow> string" where
  "encode_basestring_ascii s = [CHR 0x22] @ concat (map escape_ascii s) @ [CHR 0x22]"

definition newline_indent :: "nat \<Rightarrow> string" where
  "newline_indent level = CHR 0x0A # replicate (2 * level) CHR '' ''"

text \<open>
  \<^verbatim>\<open>_iterencode\<close>, with the chunks it yields joined. \<open>iterencode_list\<close> and
  \<open>iterencode_dict\<close> print the items of a non-empty list or dict at the indent level of the
  items, with \<^verbatim>\<open>,\<close> and a new line between two items.
\<close>

fun iterencode :: "nat \<Rightarrow> json \<Rightarrow> string"
  and iterencode_list :: "nat \<Rightarrow> json list \<Rightarrow> string"
  and iterencode_dict :: "nat \<Rightarrow> (ustr \<times> json) list \<Rightarrow> string"
where
  "iterencode level (JStr s) = encode_basestring_ascii s"
| "iterencode level JNull = ''null''"
| "iterencode level (JBool True) = ''true''"
| "iterencode level (JBool False) = ''false''"
| "iterencode level (JInt i) = str_int i"
| "iterencode level (JFloat text) = text"
| "iterencode level (JArr []) = ''[]''"
| "iterencode level (JArr (v # vs)) =
     ''['' @ newline_indent (level + 1) @ iterencode_list (level + 1) (v # vs)
     @ newline_indent level @ '']''"
| "iterencode level (JObj []) = ''{}''"
| "iterencode level (JObj (kv # kvs)) =
     ''{'' @ newline_indent (level + 1) @ iterencode_dict (level + 1) (kv # kvs)
     @ newline_indent level @ ''}''"
| "iterencode_list level [] = []"
| "iterencode_list level [v] = iterencode level v"
| "iterencode_list level (v # w # vs) =
     iterencode level v @ '','' @ newline_indent level @ iterencode_list level (w # vs)"
| "iterencode_dict level [] = []"
| "iterencode_dict level [(k, v)] =
     encode_basestring_ascii k @ '': '' @ iterencode level v"
| "iterencode_dict level ((k, v) # kv # kvs) =
     encode_basestring_ascii k @ '': '' @ iterencode level v
     @ '','' @ newline_indent level @ iterencode_dict level (kv # kvs)"

definition json_dumps :: "json \<Rightarrow> string" where
  "json_dumps obj = iterencode 0 obj"

subsection \<open>\<^verbatim>\<open>main\<close>\<close>

text \<open>
  The paths. \<open>script_file\<close> is \<^verbatim>\<open>os.path.abspath(__file__)\<close>, the absolute path of the
  script, an input of the model.
\<close>

definition proofs_dir :: "path \<Rightarrow> path" where
  "proofs_dir script_file =
     (let script_dir = dirname script_file;
          project_root = dirname script_dir
      in join project_root [''proofs''])"

definition proof_file :: "path \<Rightarrow> path" where
  "proof_file script_file = join (proofs_dir script_file) [''proof'', ''proof'']"

definition vk_file :: "path \<Rightarrow> path" where
  "vk_file script_file = join (proofs_dir script_file) [''vk'', ''vk'']"

definition vk_json_file :: "path \<Rightarrow> path" where
  "vk_json_file script_file = join (proofs_dir script_file) [''vk.json'']"

definition public_inputs_file :: "path \<Rightarrow> path" where
  "public_inputs_file script_file = join (proofs_dir script_file) [''proof'', ''public_inputs'']"

definition output_file :: "path \<Rightarrow> path" where
  "output_file script_file = join (proofs_dir script_file) [''soroban_data.json'']"

definition export_file :: "path \<Rightarrow> path" where
  "export_file script_file = join (proofs_dir script_file) [''proof_data.sh'']"

text \<open>\<^verbatim>\<open>os.path.exists\<close>, and the three tests that fill \<^verbatim>\<open>missing_files\<close>.\<close>

definition path_exists :: "fs \<Rightarrow> path \<Rightarrow> bool" where
  "path_exists files p = (files p \<noteq> None)"

definition missing_files :: "fs \<Rightarrow> path \<Rightarrow> path list" where
  "missing_files files script_file =
     (if \<not> path_exists files (proof_file script_file) then [proof_file script_file] else [])
     @ (if \<not> path_exists files (vk_file script_file) then [vk_file script_file] else [])
     @ (if \<not> path_exists files (vk_json_file script_file) then [vk_json_file script_file] else [])"

text \<open>The dict \<^verbatim>\<open>output_data\<close> and the text of the six \<^verbatim>\<open>f.write\<close> calls of the shell file.\<close>

definition output_data :: "string \<Rightarrow> int \<Rightarrow> string \<Rightarrow> int \<Rightarrow> json \<Rightarrow> json" where
  "output_data proof_hex proof_size vk_hex vk_size vk_json =
     JObj [(ustr ''proof_hex'', JStr (ustr proof_hex)),
           (ustr ''proof_size_bytes'', JInt proof_size),
           (ustr ''vk_hex'', JStr (ustr vk_hex)),
           (ustr ''vk_size_bytes'', JInt vk_size),
           (ustr ''vk_json'', vk_json)]"

definition export_text :: "string \<Rightarrow> int \<Rightarrow> string \<Rightarrow> int \<Rightarrow> string" where
  "export_text proof_hex proof_size vk_hex vk_size =
     ''#!/bin/bash'' @ [CHR 0x0A]
     @ ''# Auto-generated proof data for Soroban deployment'' @ [CHR 0x0A, CHR 0x0A]
     @ ''export PROOF_HEX='' @ [CHR 0x22] @ proof_hex @ [CHR 0x22, CHR 0x0A]
     @ ''export PROOF_SIZE='' @ str_int proof_size @ [CHR 0x0A]
     @ ''export VK_HEX='' @ [CHR 0x22] @ vk_hex @ [CHR 0x22, CHR 0x0A]
     @ ''export VK_SIZE='' @ str_int vk_size @ [CHR 0x0A]"

text \<open>\<^verbatim>\<open>len(vk_json) if isinstance(vk_json, list) else 'object'\<close>\<close>

definition vk_json_fields :: "json \<Rightarrow> string" where
  "vk_json_fields vk_json =
     (case vk_json of JArr values \<Rightarrow> str_int (int (length values)) | _ \<Rightarrow> ''object'')"

text \<open>
  A run of \<^verbatim>\<open>main\<close> under the interpreter \<open>py\<close> from a file system: how it ends (\<open>Inr ()\<close> when \<^verbatim>\<open>main\<close> returns,
  \<open>Inl e\<close> when the exception \<open>e\<close> leaves it), the arguments of the \<^verbatim>\<open>print\<close> calls made,
  and the file system it leaves. \<^verbatim>\<open>sys.exit(1)\<close> raises \<^verbatim>\<open>SystemExit(1)\<close>.
\<close>

definition main :: "interp \<Rightarrow> path \<Rightarrow> fs \<Rightarrow> (py_error + unit) \<times> string list \<times> fs" where
  "main py script_file files =
     (let out0 = [''=== Extracting Proof Data for Soroban ==='',
                  ''Proofs directory: '' @ proofs_dir script_file];
          missing = missing_files files script_file
      in
      if missing \<noteq> [] then
        (Inl (SystemExit 1),
         out0 @ [CHR 0x0A # ''ERROR: Missing required files:'']
              @ map (\<lambda>f. ''  - '' @ f) missing
              @ [CHR 0x0A # ''Run '' @ [CHR 0x27] @ ''./scripts/build_noir.sh'' @ [CHR 0x27]
                 @ '' first to generate these files.''],
         files)
      else
        (let out1 = out0 @ [CHR 0x0A # ''1. Converting proof to hex...''] in
         case read_binary_file files (proof_file script_file) of
           Inl e \<Rightarrow> (Inl e, out1, files)
         | Inr proof_hex \<Rightarrow>
             (let proof_size = int (length proof_hex) div 2;
                  out2 = out1 @ [''   Proof size: '' @ str_int proof_size @ '' bytes'',
                                 CHR 0x0A # ''2. Converting verification key to hex...'']
              in
              case read_binary_file files (vk_file script_file) of
                Inl e \<Rightarrow> (Inl e, out2, files)
              | Inr vk_hex \<Rightarrow>
                  (let vk_size = int (length vk_hex) div 2;
                       out3 = out2 @ [''   VK size: '' @ str_int vk_size @ '' bytes'',
                                      CHR 0x0A # ''3. Reading VK JSON...'']
                   in
                   case read_json_file py files (vk_json_file script_file) of
                     Inl e \<Rightarrow> (Inl e, out3, files)
                   | Inr vk_json \<Rightarrow>
                       (let files1 = write_text files (output_file script_file)
                              (json_dumps (output_data proof_hex proof_size vk_hex vk_size vk_json));
                            files2 = write_text files1 (export_file script_file)
                              (export_text proof_hex proof_size vk_hex vk_size)
                        in
                        (Inr (),
                         out3 @
                         [''   VK JSON fields: '' @ vk_json_fields vk_json,
                          CHR 0x0A # ''4. Data saved to: '' @ output_file script_file,
                          ''5. Shell exports saved to: '' @ export_file script_file,
                          CHR 0x0A # ''=== Summary ==='',
                          ''Proof (first 64 chars): '' @ take 64 proof_hex @ ''...'',
                          ''VK (first 64 chars): '' @ take 64 vk_hex @ ''...'',
                          CHR 0x0A # ''=== For Stellar CLI Usage ==='',
                          ''To use with stellar contract invoke:'',
                          ''  --proof_blob '' @ [CHR 0x22] @ proof_hex @ [CHR 0x22],
                          ''  --vk_json (use content from vk.json)'',
                          CHR 0x0A # ''Next steps:'',
                          ''  1. Run: ./scripts/build_soroban.sh'',
                          ''  2. Run: ./scripts/deploy_testnet.sh''],
                         files2))))))"

text \<open>
  The exit status of the process: 0 when \<^verbatim>\<open>main\<close> returns, the argument of
  \<^verbatim>\<open>SystemExit\<close>, and 1 for any other exception that nothing catches.
\<close>

definition exit_code :: "py_error + unit \<Rightarrow> nat" where
  "exit_code r = (case r of Inr _ \<Rightarrow> 0 | Inl (SystemExit n) \<Rightarrow> n | Inl _ \<Rightarrow> 1)"

definition run_status :: "interp \<Rightarrow> path \<Rightarrow> fs \<Rightarrow> py_error + unit" where
  "run_status py script_file files = fst (main py script_file files)"

definition run_stdout :: "interp \<Rightarrow> path \<Rightarrow> fs \<Rightarrow> string list" where
  "run_stdout py script_file files = fst (snd (main py script_file files))"

definition run_files :: "interp \<Rightarrow> path \<Rightarrow> fs \<Rightarrow> fs" where
  "run_files py script_file files = snd (snd (main py script_file files))"

subsection \<open>Notions of the specification\<close>

text \<open>A lowercase hexadecimal digit.\<close>

definition lower_hex :: "char \<Rightarrow> bool" where
  "lower_hex c = (c \<in> set ''0123456789abcdef'')"

text \<open>
  The characters that keep a special meaning between double quotes in a shell: the quote,
  the backslash, the dollar sign, the backquote, and the exclamation mark of history
  expansion.
\<close>

definition shell_special :: "char \<Rightarrow> bool" where
  "shell_special c = (c \<in> set [CHR 0x22, CHR 0x5C, CHR ''$'', CHR 0x60, CHR ''!''])"

text \<open>The errors of the ParseError class: the content of the file is not JSON text.\<close>

definition is_parse_error :: "py_error \<Rightarrow> bool" where
  "is_parse_error e = (e = JSONDecodeError \<or> e = UnicodeDecodeError)"

text \<open>
  The shell file as the specification describes it, with each of the four values between
  double quotes; \<open>export_text\<close> above is the one the program writes.
\<close>

definition export_text_all_quoted :: "string \<Rightarrow> int \<Rightarrow> string \<Rightarrow> int \<Rightarrow> string" where
  "export_text_all_quoted proof_hex proof_size vk_hex vk_size =
     ''#!/bin/bash'' @ [CHR 0x0A]
     @ ''# Auto-generated proof data for Soroban deployment'' @ [CHR 0x0A, CHR 0x0A]
     @ ''export PROOF_HEX='' @ [CHR 0x22] @ proof_hex @ [CHR 0x22, CHR 0x0A]
     @ ''export PROOF_SIZE='' @ [CHR 0x22] @ str_int proof_size @ [CHR 0x22, CHR 0x0A]
     @ ''export VK_HEX='' @ [CHR 0x22] @ vk_hex @ [CHR 0x22, CHR 0x0A]
     @ ''export VK_SIZE='' @ [CHR 0x22] @ str_int vk_size @ [CHR 0x22, CHR 0x0A]"

subsection \<open>A concrete run\<close>

text \<open>
  The script at \<^verbatim>\<open>/r/scripts/extract_proof_data.py\<close>, a proof of the three bytes
  \<^verbatim>\<open>01 02 FF\<close>, a verification key of the byte \<^verbatim>\<open>AB\<close>, and a \<^verbatim>\<open>vk.json\<close> holding
  \<^verbatim>\<open>[1]\<close>, run on its own with the default recursion limit. No float occurs in the
  examples; \<open>id\<close> stands for the conversion of floats.
\<close>

definition example_py :: interp where
  "example_py = \<lparr>py_float_repr = id, py_max_depth = 992\<rparr>"

definition example_script :: path where
  "example_script = ''/r/scripts/extract_proof_data.py''"

definition example_files :: fs where
  "example_files =
     [''/r/proofs/proof/proof'' \<mapsto> [0x01, 0x02, 0xFF],
      ''/r/proofs/vk/vk'' \<mapsto> [0xAB],
      ''/r/proofs/vk.json'' \<mapsto> [0x5B, 0x31, 0x5D]]"

section \<open>Properties\<close>

subsection \<open>Hexadecimal encoding\<close>

lemma lower_hex_hexdigit: "n < 16 \<Longrightarrow> lower_hex (hexdigit n)"
  unfolding hexdigit_def lower_hex_def by (rule nth_mem) simp

lemma unhexdigit_hexdigit_upto: "\<forall>n \<in> set [0..<16]. unhexdigit (hexdigit n) = Some n"
  by code_simp

lemma unhexdigit_hexdigit: "n < 16 \<Longrightarrow> unhexdigit (hexdigit n) = Some n"
  using unhexdigit_hexdigit_upto by simp

lemma high_nibble_less: "unat (b :: byte) div 16 < 16"
  using unsigned_less [of b, where ?'a = nat] by simp

lemma lower_hex_hex_byte: "list_all lower_hex (hex_byte b)"
  by (simp add: hex_byte_def lower_hex_hexdigit high_nibble_less)

lemma lower_hex_bytes_hex: "list_all lower_hex (bytes_hex bs)"
  by (induction bs) (simp_all add: bytes_hex_def lower_hex_hex_byte)

lemma fromhex_hex_byte:
  "bytes_fromhex (hex_byte b @ s) = map_option ((#) b) (bytes_fromhex s)"
proof -
  have "(of_nat (16 * (unat b div 16) + unat b mod 16) :: byte) = b"
    by simp
  then show ?thesis
    by (cases "bytes_fromhex s")
      (simp_all add: hex_byte_def unhexdigit_hexdigit high_nibble_less)
qed

lemma fromhex_bytes_hex: "bytes_fromhex (bytes_hex bs) = Some bs"
  by (induction bs) (simp_all add: bytes_hex_def fromhex_hex_byte)

lemma length_bytes_hex: "length (bytes_hex bs) = 2 * length bs"
  by (induction bs) (simp_all add: bytes_hex_def hex_byte_def)

text \<open>
  C1. For every byte sequence \<open>B\<close>, the hex encoding that \<^verbatim>\<open>read_binary_file\<close> returns for a
  file holding \<open>B\<close> is the concatenation of two digits for each byte, the high nibble first,
  all of them lowercase hexadecimal digits (so there is no separator); decoding it gives
  exactly \<open>B\<close> back; and the bytes \<^verbatim>\<open>0x01 0x02 0xFF\<close> encode to \<^verbatim>\<open>0102ff\<close>.
\<close>

theorem C1_hex_roundtrip:
  "read_binary_file (files(p \<mapsto> B)) p = Inr (bytes_hex B)
   \<and> bytes_hex B = concat (map (\<lambda>b. [hexdigit (unat b div 16), hexdigit (unat b mod 16)]) B)
   \<and> length (bytes_hex B) = 2 * length B
   \<and> list_all lower_hex (bytes_hex B)
   \<and> bytes_fromhex (bytes_hex B) = Some B
   \<and> bytes_hex [0x01, 0x02, 0xFF] = ''0102ff''"
proof -
  have "bytes_hex [0x01, 0x02, 0xFF] = ''0102ff''"
    by (simp add: bytes_hex_def hex_byte_def hexdigit_def)
  moreover have "bytes_hex B = concat (map (\<lambda>b. [hexdigit (unat b div 16), hexdigit (unat b mod 16)]) B)"
    unfolding bytes_hex_def hex_byte_def ..
  ultimately show ?thesis
    using fromhex_bytes_hex [of B] length_bytes_hex [of B] lower_hex_bytes_hex [of B]
    by (simp add: read_binary_file_def)
qed

subsection \<open>The paths\<close>

lemma join_step_rel:
  "b \<noteq> [] \<Longrightarrow> hd b \<noteq> CHR ''/'' \<Longrightarrow> path \<noteq> [] \<Longrightarrow> last path \<noteq> CHR ''/'' \<Longrightarrow>
   join_step path b = path @ ''/'' @ b"
  by (simp add: join_step_def)

lemma proofs_dir_shape:
  "proofs_dir script_file \<noteq> [] \<and> last (proofs_dir script_file) \<noteq> CHR ''/''"
  by (simp add: proofs_dir_def join_def join_step_def Let_def)

lemma proof_file_eq: "proof_file sf = proofs_dir sf @ ''/proof/proof''"
  using proofs_dir_shape [of sf]
  by (simp add: proof_file_def join_def join_step_rel)

lemma vk_file_eq: "vk_file sf = proofs_dir sf @ ''/vk/vk''"
  using proofs_dir_shape [of sf]
  by (simp add: vk_file_def join_def join_step_rel)

lemma vk_json_file_eq: "vk_json_file sf = proofs_dir sf @ ''/vk.json''"
  using proofs_dir_shape [of sf]
  by (simp add: vk_json_file_def join_def join_step_rel)

lemma public_inputs_file_eq: "public_inputs_file sf = proofs_dir sf @ ''/proof/public_inputs''"
  using proofs_dir_shape [of sf]
  by (simp add: public_inputs_file_def join_def join_step_rel)

lemma output_file_eq: "output_file sf = proofs_dir sf @ ''/soroban_data.json''"
  using proofs_dir_shape [of sf]
  by (simp add: output_file_def join_def join_step_rel)

lemma export_file_eq: "export_file sf = proofs_dir sf @ ''/proof_data.sh''"
  using proofs_dir_shape [of sf]
  by (simp add: export_file_def join_def join_step_rel)

lemmas path_eqs = proof_file_eq vk_file_eq vk_json_file_eq public_inputs_file_eq
  output_file_eq export_file_eq

lemma paths_distinct:
  "distinct [proof_file sf, vk_file sf, vk_json_file sf, public_inputs_file sf,
             output_file sf, export_file sf]"
  by (simp add: path_eqs)

subsection \<open>The run\<close>

lemma missing_files_Nil_iff:
  "missing_files files sf = [] \<longleftrightarrow>
     files (proof_file sf) \<noteq> None \<and> files (vk_file sf) \<noteq> None \<and> files (vk_json_file sf) \<noteq> None"
  by (simp add: missing_files_def path_exists_def)

lemma missing_files_filter:
  "missing_files files sf =
     filter (\<lambda>p. files p = None) [proof_file sf, vk_file sf, vk_json_file sf]"
  by (simp add: missing_files_def path_exists_def)

declare array_items.simps [simp del] object_items.simps [simp del]

lemma scan_error_simps [simp]:
  "scan_error JSONDecodeError" "scan_error RecursionError" "scan_error ValueError"
  by (simp_all add: scan_error_def)

lemma fails_ok_simps [simp]:
  "fails_ok (Inr y)" "fails_ok (Inl e) = scan_error e" "fails_ok (map_sum id f x) = fails_ok x"
  by (simp_all add: fails_ok_def split: sum.split)

lemma fails_ok_parse_int [simp]: "fails_ok (parse_int i)"
  by (simp add: parse_int_def split: list.split)

lemma scan_fails_ok:
  shows "fails_ok (scan_once fr d s)"
    and "fails_ok (array_items fr d s)"
    and "fails_ok (object_items fr d s)"
proof (induction fr d s and fr d s and fr d s
    rule: scan_once_array_items_object_items.induct)
  case (1 fr d)
  show ?case by simp
next
  case (2 fr d c s)
  then show ?case
    by (simp split: option.split list.split prod.split)
next
  case (3 fr d s)
  show ?case
  proof (cases "scan_once fr d s")
    case (Inl e)
    with 3(1) show ?thesis
      by (subst array_items.simps) simp
  next
    case (Inr p)
    with 3(2) [OF Inr] show ?thesis
      by (subst array_items.simps) (simp split: list.split prod.split)
  qed
next
  case (4 fr d s)
  show ?case
  proof (cases "scanstring s")
    case None
    then show ?thesis by (subst object_items.simps) simp
  next
    case (Some p)
    obtain key r0 where p: "p = (key, r0)" by (cases p)
    show ?thesis
    proof (cases "skip_ws r0")
      case Nil
      with Some p show ?thesis by (subst object_items.simps) simp
    next
      case (Cons c r1)
      show ?thesis
      proof (cases "c = 0x3A")
        case False
        with Some p Cons show ?thesis by (subst object_items.simps) simp
      next
        case True
        note ih1 = 4(1) [OF Some p [symmetric] Cons, simplified, OF True]
        show ?thesis
        proof (cases "scan_once fr d (skip_ws r1)")
          case (Inl e)
          with ih1 Some p Cons True show ?thesis
            by (subst object_items.simps) simp
        next
          case (Inr q)
          obtain v r2 where q: "q = (v, r2)" by (cases q)
          from 4(2) [OF Some p [symmetric] Cons _ Inr q [symmetric]] True
          have ih2: "length r2 < length (skip_ws r1) \<Longrightarrow> skip_ws r2 = 0x2C # r3 \<Longrightarrow>
              skip_ws r3 = 0x22 # r4 \<Longrightarrow> fails_ok (object_items fr d r4)" for r3 r4
            by simp
          from Some p Cons True Inr q ih2 show ?thesis
            by (subst object_items.simps) (simp split: list.split)
        qed
      qed
    qed
  qed
qed

lemma json_loads_error: "json_loads fr d s = Inl e \<Longrightarrow> scan_error e"
  using scan_fails_ok(1) [of fr d "skip_ws s"]
  by (auto simp: json_loads_def split: if_splits sum.splits)

lemma read_json_file_cong:
  "files1 p = files2 p \<Longrightarrow> read_json_file py files1 p = read_json_file py files2 p"
  by (simp add: read_json_file_def)

lemma read_json_file_Inr_exists: "read_json_file py files p = Inr v \<Longrightarrow> files p \<noteq> None"
  by (auto simp: read_json_file_def split: option.splits)

lemma read_json_file_Inl:
  "read_json_file py files p = Inl e \<Longrightarrow> files p \<noteq> None \<Longrightarrow>
   e = UnicodeDecodeError \<or> scan_error e"
  by (auto simp: read_json_file_def dest: json_loads_error split: option.splits)

lemma main_missing:
  assumes "missing_files files sf \<noteq> []"
  shows "run_status py sf files = Inl (SystemExit 1)"
    and "run_files py sf files = files"
    and "run_stdout py sf files =
           [''=== Extracting Proof Data for Soroban ==='', ''Proofs directory: '' @ proofs_dir sf,
            CHR 0x0A # ''ERROR: Missing required files:'']
           @ map (\<lambda>f. ''  - '' @ f) (missing_files files sf)
           @ [CHR 0x0A # ''Run '' @ [CHR 0x27] @ ''./scripts/build_noir.sh'' @ [CHR 0x27]
                 @ '' first to generate these files.'']"
  using assms by (simp_all add: run_status_def run_files_def run_stdout_def main_def Let_def)

lemma main_json_error:
  assumes "files (proof_file sf) = Some pb" and "files (vk_file sf) = Some vb"
    and "files (vk_json_file sf) \<noteq> None"
    and "read_json_file py files (vk_json_file sf) = Inl e"
  shows "run_status py sf files = Inl e" and "run_files py sf files = files"
  using assms
  by (simp_all add: run_status_def run_files_def main_def Let_def missing_files_Nil_iff
      read_binary_file_def)

lemma main_success:
  assumes "files (proof_file sf) = Some pb" and "files (vk_file sf) = Some vb"
    and "read_json_file py files (vk_json_file sf) = Inr v"
  shows "run_status py sf files = Inr ()"
    and "run_files py sf files =
          files(output_file sf \<mapsto> encode_text (json_dumps
                  (output_data (bytes_hex pb) (int (length pb)) (bytes_hex vb) (int (length vb)) v)),
                export_file sf \<mapsto> encode_text
                  (export_text (bytes_hex pb) (int (length pb)) (bytes_hex vb) (int (length vb))))"
  using assms read_json_file_Inr_exists [OF assms(3)]
  by (simp_all add: run_status_def run_files_def main_def Let_def missing_files_Nil_iff
      read_binary_file_def write_text_def length_bytes_hex)

lemma main_Inr_D:
  assumes "run_status py sf files = Inr ()"
  shows "\<exists>pb vb v. files (proof_file sf) = Some pb \<and> files (vk_file sf) = Some vb
           \<and> read_json_file py files (vk_json_file sf) = Inr v"
  using assms
  by (auto simp: run_status_def main_def Let_def missing_files_Nil_iff read_binary_file_def
      split: if_splits sum.splits option.splits)

lemma main_agree:
  assumes "files1 (proof_file sf) = files2 (proof_file sf)"
    and "files1 (vk_file sf) = files2 (vk_file sf)"
    and "files1 (vk_json_file sf) = files2 (vk_json_file sf)"
  shows "run_status py sf files1 = run_status py sf files2"
    and "run_stdout py sf files1 = run_stdout py sf files2"
    and "files1 p = files2 p \<Longrightarrow> run_files py sf files1 p = run_files py sf files2 p"
    and "run_status py sf files1 = Inr () \<Longrightarrow>
           run_files py sf files1 (output_file sf) = run_files py sf files2 (output_file sf)
         \<and> run_files py sf files1 (export_file sf) = run_files py sf files2 (export_file sf)"
  using assms read_json_file_cong [of files1 "vk_json_file sf" files2 py]
  by (auto simp: run_status_def run_stdout_def run_files_def main_def Let_def missing_files_def
      path_exists_def read_binary_file_def write_text_def
      split: sum.splits option.splits)

lemma run_files_other:
  "p \<noteq> output_file sf \<Longrightarrow> p \<noteq> export_file sf \<Longrightarrow> run_files py sf files p = files p"
  by (auto simp: run_files_def main_def Let_def write_text_def split: sum.splits)

lemma example_proofs_dir: "proofs_dir example_script = ''/r/proofs''"
  by (simp add: proofs_dir_def example_script_def dirname_def rstrip_sep_def join_def
      join_step_def Let_def)

lemma example_paths:
  "proof_file example_script = ''/r/proofs/proof/proof''"
  "vk_file example_script = ''/r/proofs/vk/vk''"
  "vk_json_file example_script = ''/r/proofs/vk.json''"
  "public_inputs_file example_script = ''/r/proofs/proof/public_inputs''"
  "output_file example_script = ''/r/proofs/soroban_data.json''"
  "export_file example_script = ''/r/proofs/proof_data.sh''"
  by (simp_all add: path_eqs example_proofs_dir)

lemma example_vk_json: "read_json_file example_py example_files ''/r/proofs/vk.json'' = Inr (JArr [JInt 1])"
  by code_simp

lemma example_inputs:
  "example_files (proof_file example_script) = Some [0x01, 0x02, 0xFF]"
  "example_files (vk_file example_script) = Some [0xAB]"
  "read_json_file example_py example_files (vk_json_file example_script) = Inr (JArr [JInt 1])"
  by (simp_all add: example_paths example_files_def example_vk_json [unfolded example_files_def])

text \<open>
  C3. The missing-input set is the list of the required paths that are absent, in the order
  proof, verification key, \<^verbatim>\<open>vk.json\<close>. If any of them is absent, the run prints a line for
  every absent required path, ends with \<^verbatim>\<open>SystemExit(1)\<close>, exit code 1, and leaves the
  file system as it was. If none is absent, the set is empty and the run goes on to the
  conversion of the proof.
\<close>

theorem C3_missing_inputs:
  "missing_files files sf =
     filter (\<lambda>p. files p = None) [proof_file sf, vk_file sf, vk_json_file sf]
   \<and> ((\<exists>p \<in> set [proof_file sf, vk_file sf, vk_json_file sf]. files p = None) \<longrightarrow>
         run_status py sf files = Inl (SystemExit 1)
       \<and> exit_code (run_status py sf files) = 1
       \<and> run_files py sf files = files
       \<and> (\<forall>p \<in> set [proof_file sf, vk_file sf, vk_json_file sf].
             files p = None \<longrightarrow> ''  - '' @ p \<in> set (run_stdout py sf files)))
   \<and> ((\<forall>p \<in> set [proof_file sf, vk_file sf, vk_json_file sf]. files p \<noteq> None) \<longrightarrow>
         missing_files files sf = []
       \<and> run_status py sf files \<noteq> Inl (SystemExit 1)
       \<and> (CHR 0x0A # ''1. Converting proof to hex...'') \<in> set (run_stdout py sf files))"
proof (intro conjI impI)
  show "missing_files files sf =
     filter (\<lambda>p. files p = None) [proof_file sf, vk_file sf, vk_json_file sf]"
    by (rule missing_files_filter)
next
  assume "\<exists>p \<in> set [proof_file sf, vk_file sf, vk_json_file sf]. files p = None"
  then have m: "missing_files files sf \<noteq> []"
    by (auto simp: missing_files_Nil_iff)
  show "run_status py sf files = Inl (SystemExit 1)"
    by (rule main_missing(1) [OF m])
  then show "exit_code (run_status py sf files) = 1"
    by (simp add: exit_code_def)
  show "run_files py sf files = files"
    by (rule main_missing(2) [OF m])
  show "\<forall>p \<in> set [proof_file sf, vk_file sf, vk_json_file sf].
          files p = None \<longrightarrow> ''  - '' @ p \<in> set (run_stdout py sf files)"
    unfolding main_missing(3) [OF m] missing_files_filter by auto
next
  assume a: "\<forall>p \<in> set [proof_file sf, vk_file sf, vk_json_file sf]. files p \<noteq> None"
  then show m: "missing_files files sf = []"
    by (simp add: missing_files_Nil_iff)
  from a obtain pb vb where pv: "files (proof_file sf) = Some pb" "files (vk_file sf) = Some vb"
    by auto
  from m pv show "run_status py sf files \<noteq> Inl (SystemExit 1)"
    using read_json_file_Inl [of py files "vk_json_file sf"] a
    by (auto simp: run_status_def main_def Let_def read_binary_file_def scan_error_def
        split: sum.splits)
  from m pv show "(CHR 0x0A # ''1. Converting proof to hex...'') \<in> set (run_stdout py sf files)"
    by (auto simp: run_stdout_def main_def Let_def read_binary_file_def split: sum.splits)
qed

theorem C3_missing_inputs_witness:
  "(example_files(vk_file example_script := None, vk_json_file example_script := None))
      (vk_file example_script) = None
   \<and> (example_files(vk_file example_script := None, vk_json_file example_script := None))
      (vk_json_file example_script) = None
   \<and> run_status example_py example_script
        (example_files(vk_file example_script := None, vk_json_file example_script := None))
       = Inl (SystemExit 1)
   \<and> ''  - /r/proofs/vk/vk'' \<in> set (run_stdout example_py example_script
        (example_files(vk_file example_script := None, vk_json_file example_script := None)))
   \<and> ''  - /r/proofs/vk.json'' \<in> set (run_stdout example_py example_script
        (example_files(vk_file example_script := None, vk_json_file example_script := None)))
   \<and> example_files (proof_file example_script) \<noteq> None
   \<and> example_files (vk_file example_script) \<noteq> None
   \<and> example_files (vk_json_file example_script) \<noteq> None
   \<and> missing_files example_files example_script = []
   \<and> run_status example_py example_script example_files \<noteq> Inl (SystemExit 1)"
proof -
  let ?files = "example_files(vk_file example_script := None, vk_json_file example_script := None)"
  have absent: "?files (vk_file example_script) = None" "?files (vk_json_file example_script) = None"
    by (simp_all add: example_paths)
  have present: "\<forall>p \<in> set [proof_file example_script, vk_file example_script,
      vk_json_file example_script]. example_files p \<noteq> None"
    by (simp add: example_paths example_files_def)
  from absent have ex: "\<exists>p \<in> set [proof_file example_script, vk_file example_script,
      vk_json_file example_script]. ?files p = None"
    by simp
  show ?thesis
    using C3_missing_inputs [of ?files example_script example_py]
      C3_missing_inputs [of example_files example_script example_py] absent present ex
    by (simp add: example_paths)
qed

subsection \<open>The shell file and the sizes\<close>

lemma unat_of_char: "unat (of_char c :: byte) = of_char c"
proof -
  have "unat (of_nat (of_char c) :: byte) = of_char c mod 256"
    by (simp add: unat_of_nat)
  then show ?thesis by (simp add: of_nat_of_char)
qed

lemma of_char_byte_eq_iff: "(of_char c :: byte) = of_char d \<longleftrightarrow> c = d"
proof
  assume "(of_char c :: byte) = of_char d"
  then have "unat (of_char c :: byte) = unat (of_char d :: byte)" by simp
  then show "c = d" by (simp add: unat_of_char)
qed simp

lemma encode_text_eq_iff: "encode_text s = encode_text t \<longleftrightarrow> s = t"
  unfolding encode_text_def
  by (rule inj_map_eq_map) (simp add: inj_on_def of_char_byte_eq_iff)

lemma example_run_files:
  "run_files example_py example_script example_files =
     example_files(output_file example_script \<mapsto> encode_text (json_dumps
         (output_data (bytes_hex [0x01, 0x02, 0xFF]) 3 (bytes_hex [0xAB]) 1 (JArr [JInt 1]))),
       export_file example_script \<mapsto> encode_text
         (export_text (bytes_hex [0x01, 0x02, 0xFF]) 3 (bytes_hex [0xAB]) 1))"
  using main_success(2) [OF example_inputs] by simp

lemma example_hex: "bytes_hex [0x01, 0x02, 0xFF] = ''0102ff''" "bytes_hex [0xAB] = ''ab''"
  by (simp_all add: bytes_hex_def hex_byte_def hexdigit_def)

lemma str_int_small: "str_int 0 = ''0''" "str_int 1 = ''1''" "str_int 3 = ''3''"
  by (simp_all add: str_int_def str_nat.simps digit_char_def)

text \<open>
  C4, as stated, fails: the values of \<^verbatim>\<open>PROOF_SIZE\<close> and \<^verbatim>\<open>VK_SIZE\<close> are written without
  quotes. In the concrete run the shell file holds \<^verbatim>\<open>export PROOF_SIZE=3\<close> and
  \<^verbatim>\<open>export VK_SIZE=1\<close>, and differs from the file with four quoted values.
\<close>

theorem C4_counterexample:
  "run_status example_py example_script example_files = Inr ()
   \<and> run_files example_py example_script example_files (export_file example_script)
       = Some (encode_text
           (''#!/bin/bash'' @ [CHR 0x0A]
            @ ''# Auto-generated proof data for Soroban deployment'' @ [CHR 0x0A, CHR 0x0A]
            @ ''export PROOF_HEX='' @ [CHR 0x22] @ ''0102ff'' @ [CHR 0x22, CHR 0x0A]
            @ ''export PROOF_SIZE=3'' @ [CHR 0x0A]
            @ ''export VK_HEX='' @ [CHR 0x22] @ ''ab'' @ [CHR 0x22, CHR 0x0A]
            @ ''export VK_SIZE=1'' @ [CHR 0x0A]))
   \<and> run_files example_py example_script example_files (export_file example_script)
       \<noteq> Some (encode_text (export_text_all_quoted ''0102ff'' 3 ''ab'' 1))"
proof -
  have "run_status example_py example_script example_files = Inr ()"
    by (rule main_success(1) [OF example_inputs])
  moreover have "run_files example_py example_script example_files (export_file example_script)
       = Some (encode_text (export_text ''0102ff'' 3 ''ab'' 1))"
    unfolding example_run_files example_hex by simp
  moreover have "export_text ''0102ff'' 3 ''ab'' 1 \<noteq> export_text_all_quoted ''0102ff'' 3 ''ab'' 1"
    by (simp add: export_text_def export_text_all_quoted_def str_int_small)
  ultimately show ?thesis
    by (simp add: encode_text_eq_iff export_text_def str_int_small)
qed

text \<open>
  C4, amended. On every successful run the shell file \<^verbatim>\<open>proofs/proof_data.sh\<close> holds the two
  header lines, an empty line, and exactly the four assignments \<^verbatim>\<open>export PROOF_HEX\<close>,
  \<^verbatim>\<open>export PROOF_SIZE\<close>, \<^verbatim>\<open>export VK_HEX\<close>, \<^verbatim>\<open>export VK_SIZE\<close>, in this order: the two
  hex strings of the input files between double quotes, the two byte counts as bare decimal
  numbers.
\<close>

theorem C4_export_file:
  assumes "run_status py sf files = Inr ()"
  shows "\<exists>pb vb. files (proof_file sf) = Some pb \<and> files (vk_file sf) = Some vb
     \<and> run_files py sf files (export_file sf)
       = Some (encode_text
           (''#!/bin/bash'' @ [CHR 0x0A]
            @ ''# Auto-generated proof data for Soroban deployment'' @ [CHR 0x0A, CHR 0x0A]
            @ ''export PROOF_HEX='' @ [CHR 0x22] @ bytes_hex pb @ [CHR 0x22, CHR 0x0A]
            @ ''export PROOF_SIZE='' @ str_int (int (length pb)) @ [CHR 0x0A]
            @ ''export VK_HEX='' @ [CHR 0x22] @ bytes_hex vb @ [CHR 0x22, CHR 0x0A]
            @ ''export VK_SIZE='' @ str_int (int (length vb)) @ [CHR 0x0A]))"
proof -
  from main_Inr_D [OF assms] obtain pb vb v where
    h: "files (proof_file sf) = Some pb" "files (vk_file sf) = Some vb"
       "read_json_file py files (vk_json_file sf) = Inr v"
    by blast
  have "run_files py sf files (export_file sf)
        = Some (encode_text (export_text (bytes_hex pb) (int (length pb)) (bytes_hex vb) (int (length vb))))"
    unfolding main_success(2) [OF h] by simp
  with h(1,2) show ?thesis
    unfolding export_text_def by blast
qed

theorem C4_export_file_witness:
  "run_status example_py example_script example_files = Inr ()
   \<and> (\<exists>pb vb. example_files (proof_file example_script) = Some pb
        \<and> example_files (vk_file example_script) = Some vb
        \<and> run_files example_py example_script example_files (export_file example_script)
       = Some (encode_text
           (''#!/bin/bash'' @ [CHR 0x0A]
            @ ''# Auto-generated proof data for Soroban deployment'' @ [CHR 0x0A, CHR 0x0A]
            @ ''export PROOF_HEX='' @ [CHR 0x22] @ bytes_hex pb @ [CHR 0x22, CHR 0x0A]
            @ ''export PROOF_SIZE='' @ str_int (int (length pb)) @ [CHR 0x0A]
            @ ''export VK_HEX='' @ [CHR 0x22] @ bytes_hex vb @ [CHR 0x22, CHR 0x0A]
            @ ''export VK_SIZE='' @ str_int (int (length vb)) @ [CHR 0x0A])))"
proof -
  have ok: "run_status example_py example_script example_files = Inr ()"
    by (rule main_success(1) [OF example_inputs])
  from C4_export_file [OF ok] ok show ?thesis by blast
qed

text \<open>
  C5. Whatever \<^verbatim>\<open>read_binary_file\<close> returns is the hex encoding of the content of the file,
  has even length, and half its length is the number of bytes of the file. On a successful
  run the sizes written to both output files are these halves, for the proof and for the
  verification key, and equal the byte counts of the two files.
\<close>

theorem C5_encoded_artifact:
  "(read_binary_file files p = Inr h \<longrightarrow>
      (\<exists>b. files p = Some b \<and> h = bytes_hex b \<and> even (length h)
           \<and> int (length h) div 2 = int (length b)))
   \<and> (run_status py sf files = Inr () \<longrightarrow>
      (\<exists>pb vb v. files (proof_file sf) = Some pb \<and> files (vk_file sf) = Some vb
         \<and> read_binary_file files (proof_file sf) = Inr (bytes_hex pb)
         \<and> read_binary_file files (vk_file sf) = Inr (bytes_hex vb)
         \<and> run_files py sf files (output_file sf) = Some (encode_text (json_dumps
              (output_data (bytes_hex pb) (int (length (bytes_hex pb)) div 2)
                           (bytes_hex vb) (int (length (bytes_hex vb)) div 2) v)))
         \<and> run_files py sf files (export_file sf) = Some (encode_text
              (export_text (bytes_hex pb) (int (length (bytes_hex pb)) div 2)
                           (bytes_hex vb) (int (length (bytes_hex vb)) div 2)))
         \<and> int (length (bytes_hex pb)) div 2 = int (length pb)
         \<and> int (length (bytes_hex vb)) div 2 = int (length vb)))"
proof (intro conjI impI)
  assume "read_binary_file files p = Inr h"
  then show "\<exists>b. files p = Some b \<and> h = bytes_hex b \<and> even (length h)
           \<and> int (length h) div 2 = int (length b)"
    by (auto simp: read_binary_file_def length_bytes_hex split: option.splits)
next
  assume ok: "run_status py sf files = Inr ()"
  from main_Inr_D [OF ok] obtain pb vb v where
    h: "files (proof_file sf) = Some pb" "files (vk_file sf) = Some vb"
       "read_json_file py files (vk_json_file sf) = Inr v"
    by blast
  have ne: "output_file sf \<noteq> export_file sf"
    using paths_distinct [of sf] by simp
  have "run_files py sf files (output_file sf) = Some (encode_text (json_dumps
              (output_data (bytes_hex pb) (int (length (bytes_hex pb)) div 2)
                           (bytes_hex vb) (int (length (bytes_hex vb)) div 2) v)))"
    unfolding main_success(2) [OF h] using ne by (simp add: length_bytes_hex)
  moreover have "run_files py sf files (export_file sf) = Some (encode_text
              (export_text (bytes_hex pb) (int (length (bytes_hex pb)) div 2)
                           (bytes_hex vb) (int (length (bytes_hex vb)) div 2)))"
    unfolding main_success(2) [OF h] by (simp add: length_bytes_hex)
  ultimately show "\<exists>pb vb v. files (proof_file sf) = Some pb \<and> files (vk_file sf) = Some vb
         \<and> read_binary_file files (proof_file sf) = Inr (bytes_hex pb)
         \<and> read_binary_file files (vk_file sf) = Inr (bytes_hex vb)
         \<and> run_files py sf files (output_file sf) = Some (encode_text (json_dumps
              (output_data (bytes_hex pb) (int (length (bytes_hex pb)) div 2)
                           (bytes_hex vb) (int (length (bytes_hex vb)) div 2) v)))
         \<and> run_files py sf files (export_file sf) = Some (encode_text
              (export_text (bytes_hex pb) (int (length (bytes_hex pb)) div 2)
                           (bytes_hex vb) (int (length (bytes_hex vb)) div 2)))
         \<and> int (length (bytes_hex pb)) div 2 = int (length pb)
         \<and> int (length (bytes_hex vb)) div 2 = int (length vb)"
    using h(1,2) by (auto simp: read_binary_file_def length_bytes_hex)
qed

theorem C5_encoded_artifact_witness:
  "read_binary_file example_files (proof_file example_script) = Inr ''0102ff''
   \<and> even (length ''0102ff'') \<and> int (length ''0102ff'') div 2 = 3
   \<and> run_status example_py example_script example_files = Inr ()
   \<and> (\<exists>v. run_files example_py example_script example_files (output_file example_script)
        = Some (encode_text (json_dumps (output_data ''0102ff'' 3 ''ab'' 1 v))))"
proof -
  have r: "read_binary_file example_files (proof_file example_script) = Inr ''0102ff''"
    by (simp add: read_binary_file_def example_inputs(1) example_hex)
  have ok: "run_status example_py example_script example_files = Inr ()"
    by (rule main_success(1) [OF example_inputs])
  note hx = example_hex
  from C5_encoded_artifact [of example_files "proof_file example_script" "''0102ff''"
      example_py example_script] r ok example_inputs(1,2) hx
  show ?thesis by auto
qed

subsection \<open>Failure, repetition and the inert input\<close>

text \<open>
  C7. A second run, on the file system the first one leaves, ends the same way, prints the same
  and leaves that file system as it is: both output files are byte-identical. More generally
  the status and the printed lines of a run depend on the contents of the three input files
  only, and so do the two output files of a successful run.
\<close>

theorem C7_idempotent:
  assumes "main py sf files = (status, out, files')"
  shows "main py sf files' = (status, out, files')
     \<and> (\<forall>files2. files2 (proof_file sf) = files (proof_file sf)
           \<and> files2 (vk_file sf) = files (vk_file sf)
           \<and> files2 (vk_json_file sf) = files (vk_json_file sf) \<longrightarrow>
           run_status py sf files2 = status \<and> run_stdout py sf files2 = out
         \<and> (status = Inr () \<longrightarrow>
              run_files py sf files2 (output_file sf) = files' (output_file sf)
            \<and> run_files py sf files2 (export_file sf) = files' (export_file sf)))"
proof (intro conjI allI impI)
  from assms have st: "run_status py sf files = status" and ou: "run_stdout py sf files = out"
    and fi: "run_files py sf files = files'"
    by (simp_all add: run_status_def run_stdout_def run_files_def)
  have d: "distinct [proof_file sf, vk_file sf, vk_json_file sf, public_inputs_file sf,
             output_file sf, export_file sf]"
    by (rule paths_distinct)
  have same: "files' (proof_file sf) = files (proof_file sf)"
    "files' (vk_file sf) = files (vk_file sf)"
    "files' (vk_json_file sf) = files (vk_json_file sf)"
    using d unfolding fi [symmetric] by (simp_all add: run_files_other)
  have s2: "run_status py sf files' = status"
    using main_agree(1) [OF same, of py] st by simp
  have o2: "run_stdout py sf files' = out"
    using main_agree(2) [OF same, of py] ou by simp
  have f2: "run_files py sf files' = files'"
  proof
    fix p
    show "run_files py sf files' p = files' p"
    proof (cases "p = output_file sf \<or> p = export_file sf")
      case False
      then show ?thesis by (simp add: run_files_other)
    next
      case True
      show ?thesis
      proof (cases "status = Inr ()")
        case ok: True
        from main_agree(4) [OF same, of py] s2 ok
        have "run_files py sf files' (output_file sf) = files' (output_file sf)"
          "run_files py sf files' (export_file sf) = files' (export_file sf)"
          using fi by simp_all
        with True show ?thesis by auto
      next
        case False
        with st have "run_files py sf files = files"
          using main_missing(2) [of files sf py] main_json_error(2) [of files sf _ _ py]
          by (auto simp: run_status_def run_files_def main_def Let_def read_binary_file_def
              write_text_def split: sum.splits option.splits if_splits)
        with fi have "files' = files" by simp
        moreover have "run_files py sf files = files" by fact
        ultimately show ?thesis by simp
      qed
    qed
  qed
  from s2 o2 f2 show "main py sf files' = (status, out, files')"
    by (simp add: run_status_def run_stdout_def run_files_def prod_eq_iff)
  fix files2
  assume a: "files2 (proof_file sf) = files (proof_file sf)
           \<and> files2 (vk_file sf) = files (vk_file sf)
           \<and> files2 (vk_json_file sf) = files (vk_json_file sf)"
  then have ag: "files2 (proof_file sf) = files (proof_file sf)"
    "files2 (vk_file sf) = files (vk_file sf)"
    "files2 (vk_json_file sf) = files (vk_json_file sf)"
    by simp_all
  show "run_status py sf files2 = status"
    using main_agree(1) [OF ag, of py] st by simp
  show "run_stdout py sf files2 = out"
    using main_agree(2) [OF ag, of py] ou by simp
  assume "status = Inr ()"
  then have ok2: "run_status py sf files2 = Inr ()"
    using main_agree(1) [OF ag, of py] st by simp
  from main_agree(4) [OF ag ok2] fi
  show "run_files py sf files2 (output_file sf) = files' (output_file sf)"
    and "run_files py sf files2 (export_file sf) = files' (export_file sf)"
    by simp_all
qed

theorem C7_idempotent_witness:
  "main example_py example_script example_files
     = (Inr (), run_stdout example_py example_script example_files,
        run_files example_py example_script example_files)
   \<and> main example_py example_script (run_files example_py example_script example_files)
     = (Inr (), run_stdout example_py example_script example_files,
        run_files example_py example_script example_files)"
proof -
  have m: "main example_py example_script example_files
     = (Inr (), run_stdout example_py example_script example_files,
        run_files example_py example_script example_files)"
    using main_success(1) [OF example_inputs]
    by (simp add: run_status_def run_stdout_def run_files_def prod_eq_iff)
  from C7_idempotent [OF m, THEN conjunct1] m show ?thesis by (rule conjI [rotated])
qed

text \<open>
  C8. Two file systems that differ at most at \<^verbatim>\<open>proofs/proof/public_inputs\<close> give runs with
  the same status, the same printed lines and the same two output files; the files they leave
  agree everywhere else, and the public-inputs path itself is left as it was.
\<close>

theorem C8_public_inputs_inert:
  assumes "\<forall>p. p \<noteq> public_inputs_file sf \<longrightarrow> files1 p = files2 p"
  shows "run_status py sf files1 = run_status py sf files2
     \<and> run_stdout py sf files1 = run_stdout py sf files2
     \<and> run_files py sf files1 (output_file sf) = run_files py sf files2 (output_file sf)
     \<and> run_files py sf files1 (export_file sf) = run_files py sf files2 (export_file sf)
     \<and> (\<forall>p. p \<noteq> public_inputs_file sf \<longrightarrow> run_files py sf files1 p = run_files py sf files2 p)
     \<and> run_files py sf files1 (public_inputs_file sf) = files1 (public_inputs_file sf)"
proof -
  have d: "distinct [proof_file sf, vk_file sf, vk_json_file sf, public_inputs_file sf,
             output_file sf, export_file sf]"
    by (rule paths_distinct)
  from d assms have ag: "files1 (proof_file sf) = files2 (proof_file sf)"
    "files1 (vk_file sf) = files2 (vk_file sf)"
    "files1 (vk_json_file sf) = files2 (vk_json_file sf)"
    by simp_all
  have other: "run_files py sf files1 p = run_files py sf files2 p"
    if "p \<noteq> public_inputs_file sf" for p
    using main_agree(3) [OF ag, of p py] assms that by simp
  have "run_files py sf files1 (public_inputs_file sf) = files1 (public_inputs_file sf)"
    using d by (simp add: run_files_other)
  moreover have "output_file sf \<noteq> public_inputs_file sf" "export_file sf \<noteq> public_inputs_file sf"
    using d by auto
  ultimately show ?thesis
    using main_agree(1,2) [OF ag, of py] other by simp
qed

theorem C8_public_inputs_inert_witness:
  "(example_files(public_inputs_file example_script \<mapsto> [0x2A]))
      (public_inputs_file example_script) \<noteq> example_files (public_inputs_file example_script)
   \<and> run_status example_py example_script (example_files(public_inputs_file example_script \<mapsto> [0x2A]))
       = Inr ()
   \<and> run_files example_py example_script example_files (output_file example_script)
       = run_files example_py example_script (example_files(public_inputs_file example_script \<mapsto> [0x2A]))
           (output_file example_script)
   \<and> run_files example_py example_script example_files (export_file example_script)
       = run_files example_py example_script (example_files(public_inputs_file example_script \<mapsto> [0x2A]))
           (export_file example_script)"
proof -
  let ?files2 = "example_files(public_inputs_file example_script \<mapsto> [0x2A])"
  have h: "\<forall>p. p \<noteq> public_inputs_file example_script \<longrightarrow> example_files p = ?files2 p"
    by simp
  note r = C8_public_inputs_inert [OF h, of example_py]
  have ok: "run_status example_py example_script example_files = Inr ()"
    by (rule main_success(1) [OF example_inputs])
  from r have "run_status example_py example_script example_files = run_status example_py example_script ?files2"
    by (rule conjunct1)
  with ok have s: "run_status example_py example_script ?files2 = Inr ()"
    by (simp only:)
  from r have o: "run_files example_py example_script example_files (output_file example_script)
       = run_files example_py example_script ?files2 (output_file example_script)"
    by (elim conjE)
  from r have e: "run_files example_py example_script example_files (export_file example_script)
       = run_files example_py example_script ?files2 (export_file example_script)"
    by (elim conjE)
  have df: "?files2 (public_inputs_file example_script)
      \<noteq> example_files (public_inputs_file example_script)"
    by (simp add: example_paths example_files_def)
  from df s o e show ?thesis
    by (intro conjI)
qed

text \<open>
  C10. Every hex string that \<^verbatim>\<open>read_binary_file\<close> returns consists of the characters
  \<^verbatim>\<open>0-9\<close> and \<^verbatim>\<open>a-f\<close> only, and none of them is special between double quotes in a shell.
  On a successful run these are the two strings between the quotes of \<^verbatim>\<open>PROOF_HEX\<close> and
  \<^verbatim>\<open>VK_HEX\<close> in the shell file.
\<close>

theorem C10_hex_alphabet:
  "(read_binary_file files p = Inr h \<longrightarrow>
      list_all lower_hex h \<and> \<not> list_ex shell_special h)
   \<and> (run_status py sf files = Inr () \<longrightarrow>
      (\<exists>proof_hex vk_hex proof_size vk_size.
          read_binary_file files (proof_file sf) = Inr proof_hex
        \<and> read_binary_file files (vk_file sf) = Inr vk_hex
        \<and> run_files py sf files (export_file sf)
            = Some (encode_text (export_text proof_hex proof_size vk_hex vk_size))
        \<and> list_all lower_hex proof_hex \<and> \<not> list_ex shell_special proof_hex
        \<and> list_all lower_hex vk_hex \<and> \<not> list_ex shell_special vk_hex))"
proof -
  have ns: "\<not> list_ex shell_special s" if "list_all lower_hex s" for s
  proof -
    have "list_all (\<lambda>c. \<not> shell_special c) ''0123456789abcdef''"
      by code_simp
    then have "lower_hex c \<Longrightarrow> \<not> shell_special c" for c
      unfolding lower_hex_def list_all_iff by blast
    with that show ?thesis
      unfolding list_all_iff list_ex_iff by blast
  qed
  have a: "list_all lower_hex h \<and> \<not> list_ex shell_special h"
    if "read_binary_file files p = Inr h" for p h
  proof -
    from that obtain b where "h = bytes_hex b"
      by (auto simp: read_binary_file_def split: option.splits)
    then have "list_all lower_hex h" by (simp add: lower_hex_bytes_hex)
    with ns show ?thesis by simp
  qed
  have b: "\<exists>proof_hex vk_hex proof_size vk_size.
          read_binary_file files (proof_file sf) = Inr proof_hex
        \<and> read_binary_file files (vk_file sf) = Inr vk_hex
        \<and> run_files py sf files (export_file sf)
            = Some (encode_text (export_text proof_hex proof_size vk_hex vk_size))
        \<and> list_all lower_hex proof_hex \<and> \<not> list_ex shell_special proof_hex
        \<and> list_all lower_hex vk_hex \<and> \<not> list_ex shell_special vk_hex"
    if ok: "run_status py sf files = Inr ()"
  proof -
    from main_Inr_D [OF ok] obtain pb vb v where
      h: "files (proof_file sf) = Some pb" "files (vk_file sf) = Some vb"
         "read_json_file py files (vk_json_file sf) = Inr v"
      by blast
    have r: "read_binary_file files (proof_file sf) = Inr (bytes_hex pb)"
      "read_binary_file files (vk_file sf) = Inr (bytes_hex vb)"
      using h by (simp_all add: read_binary_file_def)
    have "run_files py sf files (export_file sf) = Some (encode_text
        (export_text (bytes_hex pb) (int (length pb)) (bytes_hex vb) (int (length vb))))"
      unfolding main_success(2) [OF h] by simp
    with r a [OF r(1)] a [OF r(2)] show ?thesis by blast
  qed
  from a b show ?thesis by blast
qed

theorem C10_hex_alphabet_witness:
  "read_binary_file example_files (proof_file example_script) = Inr ''0102ff''
   \<and> list_all lower_hex ''0102ff'' \<and> \<not> list_ex shell_special ''0102ff''
   \<and> run_status example_py example_script example_files = Inr ()"
proof -
  have r: "read_binary_file example_files (proof_file example_script) = Inr ''0102ff''"
    by (simp add: read_binary_file_def example_inputs(1) example_hex)
  from C10_hex_alphabet [of example_files "proof_file example_script" "''0102ff''"
      example_py example_script] r main_success(1) [OF example_inputs]
  show ?thesis by simp
qed

subsection \<open>Empty input files\<close>





end
